theory Spec2Isabelle
  imports Main "HOL-Library.Word" "HOL-Library.Sublist"
begin

section \<open>Values exchanged with the remote service\<close>

text \<open>
  \<open>wan_video.py\<close> handles the decoded JSON replies of the service as plain Python values.
  A dictionary is kept as an association list whose first binding of a key counts.
  JSON numbers are kept as integers: the program never computes with a number of a reply,
  it only compares replies with strings, looks keys up and tests truth values.
\<close>

datatype json =
    JNull
  | JBool bool
  | JNum int
  | JStr string
  | JArr "json list"
  | JObj "(string \<times> json) list"

datatype error =
    ValueError string
  | OverflowError
  | TransportFailure
  | JSONDecodeError
  | AttributeError
  | TypeError
  | KeyError
  | HTTPError nat
  | OSError
  | FileNotFoundError
  | FileExistsError
  | NotADirectoryError
  | IsADirectoryError
  | SystemExit int

type_synonym bytes = "8 word list"

subsection \<open>The Python operations the program applies to such values\<close>

text \<open>\<open>d.get(key, default)\<close>: only a dictionary has the method.\<close>

fun py_get :: "json \<Rightarrow> string \<Rightarrow> json \<Rightarrow> error + json" where
  "py_get (JObj kvs) k dflt = Inr (case map_of kvs k of None \<Rightarrow> dflt | Some v \<Rightarrow> v)"
| "py_get _ k dflt = Inl AttributeError"

text \<open>
  \<open>key in x\<close> for a string \<open>key\<close>: a key test on a dictionary, an element test on a list,
  a substring test on a string, and a \<open>TypeError\<close> on anything else.
\<close>

fun py_in :: "string \<Rightarrow> json \<Rightarrow> error + bool" where
  "py_in k (JObj kvs) = Inr (map_of kvs k \<noteq> None)"
| "py_in k (JArr xs) = Inr (JStr k \<in> set xs)"
| "py_in k (JStr s) = Inr (sublist k s)"
| "py_in k _ = Inl TypeError"

text \<open>\<open>x[key]\<close> for a string \<open>key\<close>.\<close>

fun py_index :: "json \<Rightarrow> string \<Rightarrow> error + json" where
  "py_index (JObj kvs) k = (case map_of kvs k of None \<Rightarrow> Inl KeyError | Some v \<Rightarrow> Inr v)"
| "py_index _ k = Inl TypeError"

text \<open>The truth value of \<open>if x:\<close>.\<close>

fun py_truthy :: "json \<Rightarrow> bool" where
  "py_truthy JNull = False"
| "py_truthy (JBool b) = b"
| "py_truthy (JNum n) = (n \<noteq> 0)"
| "py_truthy (JStr s) = (s \<noteq> [])"
| "py_truthy (JArr xs) = (xs \<noteq> [])"
| "py_truthy (JObj kvs) = (kvs \<noteq> [])"

subsection \<open>Strings, paths and time stamps\<close>

fun digit_char :: "nat \<Rightarrow> char" where
  "digit_char n = char_of (48 + n mod 10)"

text \<open>\<open>zero_pad k n\<close> is the decimal numeral of \<open>n\<close>, filled with zeros to at least \<open>k\<close> digits.\<close>

fun zero_pad :: "nat \<Rightarrow> nat \<Rightarrow> string" where
  "zero_pad 0 n = (if n = 0 then [] else zero_pad 0 (n div 10) @ [digit_char n])"
| "zero_pad (Suc k) n = zero_pad k (n div 10) @ [digit_char n]"

record datetime =
  year :: nat
  month :: nat
  day :: nat
  hour :: nat
  minute :: nat
  second :: nat

text \<open>
  \<open>strftime("%Y%m%d_%H%M%S")\<close>, the token of the generated file name. The C library
  prints the year as it is, without padding, and every other field with two digits.
\<close>

definition strftime_file :: "datetime \<Rightarrow> string" where
  "strftime_file t =
     zero_pad 1 (year t) @ zero_pad 2 (month t) @ zero_pad 2 (day t) @ ''_'' @
     zero_pad 2 (hour t) @ zero_pad 2 (minute t) @ zero_pad 2 (second t)"

text \<open>\<open>strftime("%H:%M:%S")\<close>, the prefix of a status line.\<close>

definition strftime_clock :: "datetime \<Rightarrow> string" where
  "strftime_clock t =
     zero_pad 2 (hour t) @ '':'' @ zero_pad 2 (minute t) @ '':'' @ zero_pad 2 (second t)"

text \<open>\<open>os.path.join(a, b)\<close> on a POSIX system.\<close>

definition path_join :: "string \<Rightarrow> string \<Rightarrow> string" where
  "path_join a b =
     (if b \<noteq> [] \<and> hd b = CHR ''/'' then b
      else if a = [] \<or> last a = CHR ''/'' then a @ b
      else a @ ''/'' @ b)"

text \<open>
  \<open>os.path.splitext(p)[1]\<close>: the extension starts at the last dot of the last path
  component, unless only dots precede it there.
\<close>

definition basename :: "string \<Rightarrow> string" where
  "basename p = rev (takeWhile (\<lambda>c. c \<noteq> CHR ''/'') (rev p))"

definition splitext_ext :: "string \<Rightarrow> string" where
  "splitext_ext p =
     (let b = basename p;
          ext = rev (takeWhile (\<lambda>c. c \<noteq> CHR ''.'') (rev b));
          stem = take (length b - length ext - 1) b
      in if length ext = length b then []
         else if \<forall>c \<in> set stem. c = CHR ''.'' then []
         else CHR ''.'' # ext)"

text \<open>\<open>str.lower()\<close> on the ASCII letters.\<close>

definition lower_char :: "char \<Rightarrow> char" where
  "lower_char c =
     (let n = (of_char c :: nat) in if 65 \<le> n \<and> n \<le> 90 then char_of (n + 32) else c)"

definition lower :: "string \<Rightarrow> string" where
  "lower s = map lower_char s"

subsection \<open>Base64\<close>

definition b64_alphabet :: string where
  "b64_alphabet = ''ABCDEFGHIJKLMNOPQRSTUVWXYZabcdefghijklmnopqrstuvwxyz0123456789+/''"

definition b64_char :: "nat \<Rightarrow> char" where
  "b64_char n = b64_alphabet ! (n mod 64)"

fun b64_nat :: "nat list \<Rightarrow> string" where
  "b64_nat [] = []"
| "b64_nat [a] = [b64_char (a div 4), b64_char ((a mod 4) * 16), CHR ''='', CHR ''='']"
| "b64_nat [a, b] =
     [b64_char (a div 4), b64_char ((a mod 4) * 16 + b div 16),
      b64_char ((b mod 16) * 4), CHR ''='']"
| "b64_nat (a # b # c # rest) =
     [b64_char (a div 4), b64_char ((a mod 4) * 16 + b div 16),
      b64_char ((b mod 16) * 4 + c div 64), b64_char (c mod 64)] @ b64_nat rest"

definition b64encode :: "bytes \<Rightarrow> string" where
  "b64encode bs = b64_nat (map unat bs)"


section \<open>Configuration and the outside world\<close>

text \<open>
  The module reads its settings once, from the environment (lines 13 to 25). \<open>API_KEY\<close> is
  \<open>None\<close> when the variable is unset; every other setting has a default.
\<close>

record config =
  API_KEY :: "string option"
  WAN_MODEL_I2V :: string
  WAN_MODEL_T2V :: string
  WAN_RESOLUTION :: string
  WAN_SIZE :: string
  WAN_DURATION :: int
  WAN_AUDIO :: bool
  WAN_PROMPT_EXTEND :: bool
  WAN_SHOT_TYPE :: string
  WAN_OUTPUT_DIR :: string

definition API_BASE_URL :: string where
  "API_BASE_URL = ''https://dashscope-intl.aliyuncs.com/api/v1''"

text \<open>The test \<open>not API_KEY\<close>: true of \<open>None\<close> and of the empty string.\<close>

definition no_api_key :: "config \<Rightarrow> bool" where
  "no_api_key conf = (case API_KEY conf of None \<Rightarrow> True | Some k \<Rightarrow> k = [])"

text \<open>
  What an HTTP request meets: a transport failure (\<open>requests\<close> raises) or a response, of
  which the program reads the status code, the decoded JSON body (\<open>None\<close> when the body is
  not JSON) and the raw content.
\<close>

record response =
  status_code :: nat
  body_json :: "json option"
  content :: bytes

datatype reply = Fault | Reply response

text \<open>
  The console messages, one constructor per \<open>print\<close> of the source, holding the values
  that the message formats; the usage text of \<open>main\<close> is one message.
\<close>

datatype msg =
    Msg_image_loaded string
  | Msg_mode_I2V
  | Msg_mode_T2V
  | Msg_task_id json
  | Msg_interval int
  | Msg_status string json
  | Msg_done
  | Msg_failed json
  | Msg_unexpected json
  | Msg_downloading json
  | Msg_saved string
  | Msg_rule
  | Msg_title bool
  | Msg_model string
  | Msg_resolution string
  | Msg_duration int
  | Msg_prompt string
  | Msg_image string
  | Msg_requesting
  | Msg_error json
  | Msg_usage

text \<open>
  The effects of a run, in the order in which they happen. The address of a GET is a
  fixed prefix followed by a value formatted into it.
\<close>

datatype event =
    Print msg
  | Http_post string "(string \<times> string) list" json
  | Http_get string json "(string \<times> string) list"
  | Sleep int
  | Makedirs string
  | Write_file string bytes

text \<open>
  The world outside the program. The replies of the network and the readings of the clock
  are given in advance, one per request or reading, and the counters say how many have been
  used. The file system is a map from absolute paths, as lists of names below the root, to
  nodes; the root is always a directory. Paths are resolved the way POSIX does it, without
  symbolic links. Permissions, a full disk and other faults of the operating system are not
  part of the model.
\<close>

datatype node = Dir | File bytes

record world =
  post_replies :: "nat \<Rightarrow> reply"
  get_replies :: "nat \<Rightarrow> reply"
  clock :: "nat \<Rightarrow> datetime"
  sleep_limit :: int
  n_posts :: nat
  n_gets :: nat
  n_now :: nat
  cwd :: "string list"
  fs :: "string list \<rightharpoonup> node"
  trace :: "event list"

definition say :: "msg \<Rightarrow> world \<Rightarrow> world" where
  "say m w = w\<lparr>trace := trace w @ [Print m]\<rparr>"

definition now :: "world \<Rightarrow> datetime \<times> world" where
  "now w = (clock w (n_now w), w\<lparr>n_now := Suc (n_now w)\<rparr>)"

definition http_post :: "string \<Rightarrow> (string \<times> string) list \<Rightarrow> json \<Rightarrow> world \<Rightarrow> reply \<times> world" where
  "http_post url headers payload w =
     (post_replies w (n_posts w),
      w\<lparr>n_posts := Suc (n_posts w), trace := trace w @ [Http_post url headers payload]\<rparr>)"

definition http_get :: "string \<Rightarrow> json \<Rightarrow> (string \<times> string) list \<Rightarrow> world \<Rightarrow> reply \<times> world" where
  "http_get base v headers w =
     (get_replies w (n_gets w),
      w\<lparr>n_gets := Suc (n_gets w), trace := trace w @ [Http_get base v headers]\<rparr>)"

text \<open>\<open>response.json()\<close> of a request that may have failed in transport.\<close>

definition reply_json :: "reply \<Rightarrow> error + json" where
  "reply_json r =
     (case r of
        Fault \<Rightarrow> Inl TransportFailure
      | Reply rsp \<Rightarrow> (case body_json rsp of None \<Rightarrow> Inl JSONDecodeError | Some j \<Rightarrow> Inr j))"

subsection \<open>Sleeping\<close>

text \<open>
  \<open>time.sleep(interval)\<close> for an integer. The interval is first converted to nanoseconds in
  64 bits, which raises \<open>OverflowError\<close> when it does not fit; then a negative interval is
  refused with \<open>ValueError\<close>; then the platform is asked to sleep, and it refuses with
  \<open>OSError\<close> an interval that leads beyond the end of its clock. How long a sleep the
  platform accepts depends on the machine (\<open>sleep_limit\<close>), but a sleep of up to \<open>10^9\<close>
  seconds is accepted everywhere.
\<close>

definition sleep :: "int \<Rightarrow> world \<Rightarrow> error + world" where
  "sleep interval w =
     (if interval * 1000000000 < - (2 ^ 63) \<or> 2 ^ 63 - 1 < interval * 1000000000
      then Inl OverflowError
      else if interval < 0 then Inl (ValueError ''sleep length must be non-negative'')
      else if max 1000000000 (sleep_limit w) < interval then Inl OSError
      else Inr (w\<lparr>trace := trace w @ [Sleep interval]\<rparr>))"

subsection \<open>The file system\<close>

text \<open>\<open>s.split(c)\<close>.\<close>

fun split_on :: "char \<Rightarrow> string \<Rightarrow> string list" where
  "split_on c [] = [[]]"
| "split_on c (x # xs) =
     (if x = c then [] # split_on c xs
      else (case split_on c xs of [] \<Rightarrow> [[x]] | y # ys \<Rightarrow> (x # y) # ys))"

definition node_at :: "world \<Rightarrow> string list \<Rightarrow> node option" where
  "node_at w key = (if key = [] then Some Dir else fs w key)"

text \<open>Where the resolution of a path starts: at the root or at the working directory.\<close>

definition start_dir :: "world \<Rightarrow> string \<Rightarrow> string list" where
  "start_dir w p = (if p \<noteq> [] \<and> hd p = CHR ''/'' then [] else cwd w)"

text \<open>
  The resolution of the names of a path, from the directory \<open>cur\<close>. Each step is taken from
  a directory that exists; an empty name and \<open>.\<close> stay, \<open>..\<close> goes up. The node that the
  last step reaches is not looked at.
\<close>

fun walk :: "world \<Rightarrow> string list \<Rightarrow> string list \<Rightarrow> error + string list" where
  "walk w cur [] = Inr cur"
| "walk w cur (c # cs) =
     (case node_at w cur of
        None \<Rightarrow> Inl FileNotFoundError
      | Some (File data) \<Rightarrow> Inl NotADirectoryError
      | Some Dir \<Rightarrow>
          if c = [] \<or> c = ''.'' then walk w cur cs
          else if c = ''..'' then walk w (butlast cur) cs
          else walk w (cur @ [c]) cs)"

text \<open>\<open>os.stat(p)\<close>: the place and the node that a path names.\<close>

definition stat :: "world \<Rightarrow> string \<Rightarrow> error + string list \<times> node" where
  "stat w p =
     (if p = [] then Inl FileNotFoundError
      else
        (case walk w (start_dir w p) (split_on CHR ''/'' p) of
           Inl e \<Rightarrow> Inl e
         | Inr key \<Rightarrow>
             (case node_at w key of
                None \<Rightarrow> Inl FileNotFoundError
              | Some n \<Rightarrow> Inr (key, n))))"

text \<open>\<open>os.path.exists(p)\<close> and \<open>os.path.isdir(p)\<close>.\<close>

definition path_exists :: "world \<Rightarrow> string \<Rightarrow> bool" where
  "path_exists w p = (case stat w p of Inl e \<Rightarrow> False | Inr found \<Rightarrow> True)"

definition is_dir :: "world \<Rightarrow> string \<Rightarrow> bool" where
  "is_dir w p = (case stat w p of Inl e \<Rightarrow> False | Inr (key, n) \<Rightarrow> n = Dir)"

text \<open>\<open>open(p, "rb").read()\<close>.\<close>

definition read_file :: "world \<Rightarrow> string \<Rightarrow> error + bytes" where
  "read_file w p =
     (case stat w p of
        Inl e \<Rightarrow> Inl e
      | Inr (key, Dir) \<Rightarrow> Inl IsADirectoryError
      | Inr (key, File data) \<Rightarrow> Inr data)"

text \<open>
  \<open>os.makedirs(d, exist_ok=True)\<close>, from the directory \<open>cur\<close>: every name of the path that
  is missing is made a directory, on the way. A file in the way stops it: with
  \<open>FileExistsError\<close> when the file is what the whole path names, with
  \<open>NotADirectoryError\<close> when more names follow. The directories made before that stay.
\<close>

fun make_dirs :: "world \<Rightarrow> string list \<Rightarrow> string list \<Rightarrow> error option \<times> world" where
  "make_dirs w cur [] =
     (case node_at w cur of
        None \<Rightarrow> (Some FileNotFoundError, w)
      | Some (File data) \<Rightarrow> (Some NotADirectoryError, w)
      | Some Dir \<Rightarrow> (None, w))"
| "make_dirs w cur (c # cs) =
     (case node_at w cur of
        None \<Rightarrow> (Some FileNotFoundError, w)
      | Some (File data) \<Rightarrow> (Some NotADirectoryError, w)
      | Some Dir \<Rightarrow>
          if c = [] \<or> c = ''.'' then make_dirs w cur cs
          else if c = ''..'' then make_dirs w (butlast cur) cs
          else
            (case node_at w (cur @ [c]) of
               Some Dir \<Rightarrow> make_dirs w (cur @ [c]) cs
             | Some (File data) \<Rightarrow>
                 (Some (if list_all (\<lambda>x. x = []) cs then FileExistsError
                        else NotADirectoryError), w)
             | None \<Rightarrow> make_dirs (w\<lparr>fs := (fs w)(cur @ [c] \<mapsto> Dir)\<rparr>) (cur @ [c]) cs))"

definition makedirs_exist_ok :: "string \<Rightarrow> world \<Rightarrow> error option \<times> world" where
  "makedirs_exist_ok d w =
     (let w1 = w\<lparr>trace := trace w @ [Makedirs d]\<rparr>
      in if d = [] then (Some FileNotFoundError, w1)
         else make_dirs w1 (start_dir w1 d) (split_on CHR ''/'' d))"

text \<open>\<open>s.rstrip("/")\<close>.\<close>

definition rstrip_slash :: "string \<Rightarrow> string" where
  "rstrip_slash p = rev (dropWhile (\<lambda>c. c = CHR ''/'') (rev p))"

text \<open>
  \<open>open(p, "wb")\<close>: the place of the file that is opened for writing. A path that ends
  in a slash, or in \<open>.\<close> or \<open>..\<close>, or that names a directory, is refused with
  \<open>IsADirectoryError\<close>; the directory that is to hold the file must exist.
\<close>

definition open_wb :: "world \<Rightarrow> string \<Rightarrow> error + string list" where
  "open_wb w p =
     (if p = [] then Inl FileNotFoundError
      else if rstrip_slash p = [] then Inl IsADirectoryError
      else
        (let names = split_on CHR ''/'' (rstrip_slash p);
             leaf = last names
         in case walk w (start_dir w p) (butlast names) of
              Inl e \<Rightarrow> Inl e
            | Inr parent \<Rightarrow>
                (case node_at w parent of
                   None \<Rightarrow> Inl FileNotFoundError
                 | Some (File data) \<Rightarrow> Inl NotADirectoryError
                 | Some Dir \<Rightarrow>
                     if last p = CHR ''/'' \<or> leaf = ''.'' \<or> leaf = ''..''
                     then Inl IsADirectoryError
                     else if node_at w (parent @ [leaf]) = Some Dir then Inl IsADirectoryError
                     else Inr (parent @ [leaf]))))"

text \<open>\<open>response.iter_content(chunk_size=n)\<close>: the content in pieces of at most \<open>n\<close> bytes.\<close>

function iter_content :: "nat \<Rightarrow> bytes \<Rightarrow> bytes list" where
  "iter_content n bs =
     (if n = 0 \<or> bs = [] then [] else take n bs # iter_content n (drop n bs))"
  by pat_completeness auto
termination
  by (relation "measure (\<lambda>(n, bs). length bs)") auto

declare iter_content.simps [simp del]

text \<open>
  The \<open>with open(path, "wb")\<close> block on a file that was opened at the place \<open>key\<close>: the file
  is emptied, then each chunk is appended.
\<close>

definition write_chunks :: "string \<Rightarrow> string list \<Rightarrow> bytes list \<Rightarrow> world \<Rightarrow> world" where
  "write_chunks path key chunks w =
     (let data = fold (\<lambda>chunk acc. acc @ chunk) chunks []
      in w\<lparr>fs := (fs w)(key \<mapsto> File data), trace := trace w @ [Write_file path data]\<rparr>)"


section \<open>The program\<close>

subsection \<open>\<open>encode_image_to_base64\<close> (lines 28 to 43)\<close>

definition mime_types :: "(string \<times> string) list" where
  "mime_types =
     [(''.png'', ''image/png''), (''.jpg'', ''image/jpeg''), (''.jpeg'', ''image/jpeg''),
      (''.gif'', ''image/gif''), (''.webp'', ''image/webp'')]"

definition encode_image_to_base64 :: "string \<Rightarrow> world \<Rightarrow> error + string" where
  "encode_image_to_base64 image_path w =
     (let ext = lower (splitext_ext image_path);
          mime_type = (case map_of mime_types ext of None \<Rightarrow> ''image/png'' | Some m \<Rightarrow> m)
      in case read_file w image_path of
           Inl e \<Rightarrow> Inl e
         | Inr data \<Rightarrow> Inr (''data:'' @ mime_type @ '';base64,'' @ b64encode data))"

subsection \<open>\<open>generate_video\<close> (lines 46 to 111)\<close>

text \<open>The test \<open>if image_input:\<close> on an optional string.\<close>

definition image_given :: "string option \<Rightarrow> bool" where
  "image_given image_input = (case image_input of None \<Rightarrow> False | Some s \<Rightarrow> s \<noteq> [])"

text \<open>Lines 63 to 102: the payload of the request, in one of two shapes.\<close>

definition request_payload :: "config \<Rightarrow> string \<Rightarrow> string option \<Rightarrow> world \<Rightarrow> (error + json) \<times> world" where
  "request_payload conf prompt image_input w =
     (if image_given image_input then
        (let img = (case image_input of None \<Rightarrow> [] | Some s \<Rightarrow> s) in
         case (if path_exists w img then
                 (case encode_image_to_base64 img w of
                    Inl e \<Rightarrow> Inl e
                  | Inr data_uri \<Rightarrow> Inr (data_uri, say (Msg_image_loaded img) w))
               else if prefix ''data:'' img then Inr (img, w)
               else Inr (img, w)) of
           Inl e \<Rightarrow> (Inl e, w)
         | Inr (img_url, w1) \<Rightarrow>
             (Inr (JObj
                [(''model'', JStr (WAN_MODEL_I2V conf)),
                 (''input'', JObj [(''prompt'', JStr prompt), (''img_url'', JStr img_url)]),
                 (''parameters'', JObj
                    [(''resolution'', JStr (WAN_RESOLUTION conf)),
                     (''prompt_extend'', JBool (WAN_PROMPT_EXTEND conf)),
                     (''duration'', JNum (WAN_DURATION conf)),
                     (''shot_type'', JStr (WAN_SHOT_TYPE conf))])]),
              say Msg_mode_I2V w1))
      else
        (Inr (JObj
           [(''model'', JStr (WAN_MODEL_T2V conf)),
            (''input'', JObj [(''prompt'', JStr prompt)]),
            (''parameters'', JObj
               [(''size'', JStr (WAN_SIZE conf)),
                (''prompt_extend'', JBool (WAN_PROMPT_EXTEND conf)),
                (''duration'', JNum (WAN_DURATION conf)),
                (''shot_type'', JStr (WAN_SHOT_TYPE conf))])]),
         say Msg_mode_T2V w))"

text \<open>\<open>f"Bearer {API_KEY}"\<close>.\<close>

definition bearer :: "config \<Rightarrow> string" where
  "bearer conf = ''Bearer '' @ (case API_KEY conf of None \<Rightarrow> ''None'' | Some k \<Rightarrow> k)"

definition generate_video :: "config \<Rightarrow> string \<Rightarrow> string option \<Rightarrow> world \<Rightarrow> (error + json) \<times> world" where
  "generate_video conf prompt image_input w =
     (if no_api_key conf then (Inl (ValueError ''WAN_API_KEY is not set in .env''), w)
      else
        (let url = API_BASE_URL @ ''/services/aigc/video-generation/video-synthesis'' in
         case request_payload conf prompt image_input w of
           (Inl e, w1) \<Rightarrow> (Inl e, w1)
         | (Inr payload, w1) \<Rightarrow>
             (let headers =
                    [(''X-DashScope-Async'', ''enable''),
                     (''Authorization'', bearer conf),
                     (''Content-Type'', ''application/json'')];
                  (r, w2) = http_post url headers payload w1
              in (reply_json r, w2))))"

subsection \<open>\<open>check_status\<close> (lines 114 to 131)\<close>

definition check_status :: "config \<Rightarrow> json \<Rightarrow> world \<Rightarrow> (error + json) \<times> world" where
  "check_status conf task_id w =
     (if no_api_key conf then (Inl (ValueError ''WAN_API_KEY is not set in .env''), w)
      else
        (let headers = [(''Authorization'', bearer conf)];
             (r, w1) = http_get (API_BASE_URL @ ''/tasks/'') task_id headers w
         in (reply_json r, w1)))"

subsection \<open>\<open>wait_for_completion\<close> (lines 134 to 167)\<close>

text \<open>The default of \<open>output.get("message", ...)\<close>, as UTF-8.\<close>

definition unknown_error_text :: string where
  "unknown_error_text =
     map char_of
       [228, 184, 141, 230, 152, 142, 227, 129, 170, 227, 130, 168,
        227, 131, 169, 227, 131, 188 :: nat]"

text \<open>
  One pass through the body of \<open>while True\<close> (lines 149 to 167): \<open>Inr (Some result)\<close> is a
  \<open>return result\<close>, \<open>Inr None\<close> the end of the body after the sleep, \<open>Inl e\<close> an exception
  that leaves the loop.
\<close>

definition poll_tick :: "config \<Rightarrow> json \<Rightarrow> int \<Rightarrow> world \<Rightarrow> (error + json option) \<times> world" where
  "poll_tick conf task_id interval w =
     (case check_status conf task_id w of
        (Inl e, w1) \<Rightarrow> (Inl e, w1)
      | (Inr result, w1) \<Rightarrow>
          (case py_get result ''output'' (JObj []) of
             Inl e \<Rightarrow> (Inl e, w1)
           | Inr output \<Rightarrow>
               (case py_get output ''task_status'' (JStr ''UNKNOWN'') of
                  Inl e \<Rightarrow> (Inl e, w1)
                | Inr status \<Rightarrow>
                    (let (t, w2) = now w1;
                         w3 = say (Msg_status (strftime_clock t) status) w2
                     in if status = JStr ''SUCCEEDED'' then (Inr (Some result), say Msg_done w3)
                        else if status = JStr ''FAILED'' then
                          (case py_get output ''message'' (JStr unknown_error_text) of
                             Inl e \<Rightarrow> (Inl e, w3)
                           | Inr error_msg \<Rightarrow> (Inr (Some result), say (Msg_failed error_msg) w3))
                        else if status \<notin> set [JStr ''PENDING'', JStr ''RUNNING''] then
                          (Inr (Some result), say (Msg_unexpected status) w3)
                        else
                          (case sleep interval w3 of
                             Inl e \<Rightarrow> (Inl e, w3)
                           | Inr w4 \<Rightarrow> (Inr None, w4))))))"

text \<open>The loop itself. It has no bound: where it never returns, its value is \<open>None\<close>.\<close>

partial_function (option) wait_loop ::
  "config \<Rightarrow> json \<Rightarrow> int \<Rightarrow> world \<Rightarrow> ((error + json) \<times> world) option" where
  "wait_loop conf task_id interval w =
     (case poll_tick conf task_id interval w of
        (Inl e, w1) \<Rightarrow> Some (Inl e, w1)
      | (Inr (Some result), w1) \<Rightarrow> Some (Inr result, w1)
      | (Inr None, w1) \<Rightarrow> wait_loop conf task_id interval w1)"

definition wait_for_completion ::
  "config \<Rightarrow> json \<Rightarrow> int \<Rightarrow> world \<Rightarrow> ((error + json) \<times> world) option" where
  "wait_for_completion conf task_id interval w =
     wait_loop conf task_id interval (say (Msg_interval interval) (say (Msg_task_id task_id) w))"

subsection \<open>\<open>download_video\<close> (lines 170 to 198)\<close>

text \<open>
  Lines 181 to 186: the output directory and the destination path. When \<open>os.makedirs\<close>
  raises, the directories that it made before stay.
\<close>

definition destination ::
  "config \<Rightarrow> string option \<Rightarrow> world \<Rightarrow> (error + string) \<times> world" where
  "destination conf output_path w =
     (case makedirs_exist_ok (WAN_OUTPUT_DIR conf) w of
        (Some e, w1) \<Rightarrow> (Inl e, w1)
      | (None, w1) \<Rightarrow>
          (case output_path of
             None \<Rightarrow>
               (let (t, w2) = now w1;
                    timestamp = strftime_file t
                in (Inr (path_join (WAN_OUTPUT_DIR conf) (''wan_video_'' @ timestamp @ ''.mp4'')),
                    w2))
           | Some p \<Rightarrow> (Inr p, w1)))"

definition download_video :: "config \<Rightarrow> json \<Rightarrow> string option \<Rightarrow> world \<Rightarrow> (error + string) \<times> world" where
  "download_video conf video_url output_path w =
     (case destination conf output_path w of
        (Inl e, w1) \<Rightarrow> (Inl e, w1)
      | (Inr path, w1) \<Rightarrow>
          (let w2 = say (Msg_downloading video_url) w1;
               (r, w3) = http_get [] video_url [] w2
           in case r of
                Fault \<Rightarrow> (Inl TransportFailure, w3)
              | Reply rsp \<Rightarrow>
                  if 400 \<le> status_code rsp \<and> status_code rsp < 600
                  then (Inl (HTTPError (status_code rsp)), w3)
                  else
                    (case open_wb w3 path of
                       Inl e \<Rightarrow> (Inl e, w3)
                     | Inr key \<Rightarrow>
                         (let w4 = write_chunks path key (iter_content 8192 (content rsp)) w3
                          in (Inr path, say (Msg_saved path) w4)))))"

subsection \<open>\<open>run\<close> (lines 201 to 247)\<close>

text \<open>Lines 212 to 228: what \<open>run\<close> announces before it submits.\<close>

definition is_i2v :: "string option \<Rightarrow> bool" where
  "is_i2v image_input = (image_input \<noteq> None)"

definition announce :: "config \<Rightarrow> string \<Rightarrow> string option \<Rightarrow> world \<Rightarrow> world" where
  "announce conf prompt image_input w =
     (let model = (if is_i2v image_input then WAN_MODEL_I2V conf else WAN_MODEL_T2V conf);
          resolution = (if is_i2v image_input then WAN_RESOLUTION conf else WAN_SIZE conf);
          msgs =
            [Msg_rule, Msg_title (is_i2v image_input), Msg_rule, Msg_model model,
             Msg_resolution resolution, Msg_duration (WAN_DURATION conf), Msg_prompt prompt] @
            (if image_given image_input
             then [Msg_image (case image_input of None \<Rightarrow> [] | Some s \<Rightarrow> s)] else []) @
            [Msg_rule, Msg_requesting]
      in fold say msgs w)"

text \<open>
  Line 231: \<open>"output" not in result or "task_id" not in result.get("output", {})\<close>, with
  the second test made only when the first is false.
\<close>

definition lacks_task_id :: "json \<Rightarrow> error + bool" where
  "lacks_task_id result =
     (case py_in ''output'' result of
        Inl e \<Rightarrow> Inl e
      | Inr present \<Rightarrow>
          if \<not> present then Inr True
          else
            (case py_get result ''output'' (JObj []) of
               Inl e \<Rightarrow> Inl e
             | Inr output \<Rightarrow>
                 (case py_in ''task_id'' output of
                    Inl e \<Rightarrow> Inl e
                  | Inr found \<Rightarrow> Inr (\<not> found))))"

text \<open>Line 235: \<open>result["output"]["task_id"]\<close>.\<close>

definition task_id_of :: "json \<Rightarrow> error + json" where
  "task_id_of result =
     (case py_index result ''output'' of
        Inl e \<Rightarrow> Inl e
      | Inr output \<Rightarrow> py_index output ''task_id'')"

text \<open>Lines 241 to 247: what \<open>run\<close> does with the reply that ended the wait.\<close>

definition finish :: "config \<Rightarrow> json \<Rightarrow> world \<Rightarrow> (error + string option) \<times> world" where
  "finish conf final_result w =
     (case py_get final_result ''output'' (JObj []) of
        Inl e \<Rightarrow> (Inl e, w)
      | Inr output \<Rightarrow>
          (case py_get output ''task_status'' JNull of
             Inl e \<Rightarrow> (Inl e, w)
           | Inr status \<Rightarrow>
               if status = JStr ''SUCCEEDED'' then
                 (case py_get output ''video_url'' JNull of
                    Inl e \<Rightarrow> (Inl e, w)
                  | Inr video_url \<Rightarrow>
                      if py_truthy video_url then
                        (case download_video conf video_url None w of
                           (Inl e, w1) \<Rightarrow> (Inl e, w1)
                         | (Inr path, w1) \<Rightarrow> (Inr (Some path), w1))
                      else (Inr None, w))
               else (Inr None, w)))"

text \<open>
  The result of \<open>run\<close> is \<open>Inr (Some path)\<close> for a returned path, \<open>Inr None\<close> for a returned
  \<open>None\<close> and \<open>Inl e\<close> for an exception; it is \<open>None\<close> where the wait never ends.
\<close>

definition run ::
  "config \<Rightarrow> string \<Rightarrow> string option \<Rightarrow> world \<Rightarrow> ((error + string option) \<times> world) option" where
  "run conf prompt image_input w =
     (case generate_video conf prompt image_input (announce conf prompt image_input w) of
        (Inl e, w1) \<Rightarrow> Some (Inl e, w1)
      | (Inr result, w1) \<Rightarrow>
          (case lacks_task_id result of
             Inl e \<Rightarrow> Some (Inl e, w1)
           | Inr missing \<Rightarrow>
               if missing then Some (Inr None, say (Msg_error result) w1)
               else
                 (case task_id_of result of
                    Inl e \<Rightarrow> Some (Inl e, w1)
                  | Inr task_id \<Rightarrow>
                      (case wait_for_completion conf task_id 10 w1 of
                         None \<Rightarrow> None
                       | Some (Inl e, w2) \<Rightarrow> Some (Inl e, w2)
                       | Some (Inr final_result, w2) \<Rightarrow> Some (finish conf final_result w2)))))"


subsection \<open>\<open>main\<close> (lines 250 to 275)\<close>

text \<open>
  \<open>argv\<close> is \<open>sys.argv\<close>, the name of the script first. With one argument it is the
  prompt; with more, the first is the image and the second the prompt. \<open>sys.exit(1)\<close> is
  the exception \<open>SystemExit\<close>.
\<close>

definition main :: "config \<Rightarrow> string list \<Rightarrow> world \<Rightarrow> ((error + unit) \<times> world) option" where
  "main conf argv w =
     (if length argv < 2 then Some (Inl (SystemExit 1), say Msg_usage w)
      else
        (let (prompt, image_input) =
               (if length argv = 2 then (argv ! 1, None) else (argv ! 2, Some (argv ! 1)))
         in case run conf prompt image_input w of
              None \<Rightarrow> None
            | Some (Inl e, w1) \<Rightarrow> Some (Inl e, w1)
            | Some (Inr path, w1) \<Rightarrow> Some (Inr (), w1)))"

declare wait_loop.simps [code]

section \<open>Scripted worlds\<close>

text \<open>
  Concrete settings and worlds on which the theorems below are exercised: the defaults of
  the module with a key, a network that answers from two lists of replies (and fails in
  transport once a list is used up), a clock that stands still, and a file system that
  holds the working directory \<open>/work\<close> and nothing else.
\<close>

definition demo_config :: config where
  "demo_config =
     \<lparr>API_KEY = Some ''sk-test'', WAN_MODEL_I2V = ''wan2.6-i2v'', WAN_MODEL_T2V = ''wan2.6-t2v'',
      WAN_RESOLUTION = ''720P'', WAN_SIZE = ''1280*720'', WAN_DURATION = 10, WAN_AUDIO = True,
      WAN_PROMPT_EXTEND = True, WAN_SHOT_TYPE = ''single'', WAN_OUTPUT_DIR = ''./output''\<rparr>"

definition scripted :: "reply list \<Rightarrow> nat \<Rightarrow> reply" where
  "scripted rs n = (if n < length rs then rs ! n else Fault)"

definition ok_reply :: "json \<Rightarrow> reply" where
  "ok_reply j = Reply \<lparr>status_code = 200, body_json = Some j, content = []\<rparr>"

definition demo_time :: datetime where
  "demo_time = \<lparr>year = 2024, month = 3, day = 7, hour = 9, minute = 5, second = 0\<rparr>"

definition demo_world :: "reply list \<Rightarrow> reply list \<Rightarrow> world" where
  "demo_world posts gets =
     \<lparr>post_replies = scripted posts, get_replies = scripted gets, clock = (\<lambda>n. demo_time),
      sleep_limit = 9000000000, n_posts = 0, n_gets = 0, n_now = 0,
      cwd = [''work''], fs = [[''work''] \<mapsto> Dir], trace = []\<rparr>"

text \<open>A status reply \<open>{"output": {"task_status": s, ...}}\<close>.\<close>

definition status_json :: "string \<Rightarrow> (string \<times> json) list \<Rightarrow> json" where
  "status_json s extra = JObj [(''output'', JObj ((''task_status'', JStr s) # extra))]"

text \<open>The reply to an accepted submission.\<close>

definition accepted_json :: json where
  "accepted_json =
     JObj [(''output'', JObj [(''task_id'', JStr ''t-1''), (''task_status'', JStr ''PENDING'')])]"

text \<open>The definitions that a run on a scripted world unfolds.\<close>

lemmas world_ops =
  check_status_def http_get_def http_post_def reply_json_def now_def say_def sleep_def
  demo_world_def scripted_def ok_reply_def status_json_def demo_config_def no_api_key_def
  bearer_def

section \<open>The credential check\<close>

text \<open>
  Claim C8. When no API credential is configured (the key is unset or empty),
  \<open>generate_video\<close> and \<open>check_status\<close> both fail with the \<open>ValueError\<close> that reports the
  missing key, and they leave the world as it was: no request has been sent, nothing has
  been printed and no file has been read.
\<close>

theorem missing_credential_fails_before_network:
  assumes "no_api_key conf"
  shows "generate_video conf prompt image_input w =
           (Inl (ValueError ''WAN_API_KEY is not set in .env''), w) \<and>
         check_status conf task_id w =
           (Inl (ValueError ''WAN_API_KEY is not set in .env''), w)"
  using assms by (simp add: generate_video_def check_status_def)

theorem missing_credential_fails_before_network_witness:
  "no_api_key (demo_config\<lparr>API_KEY := None\<rparr>) \<and>
   generate_video (demo_config\<lparr>API_KEY := None\<rparr>) ''a cat'' None (demo_world [] []) =
     (Inl (ValueError ''WAN_API_KEY is not set in .env''), demo_world [] []) \<and>
   check_status (demo_config\<lparr>API_KEY := None\<rparr>) (JStr ''t-1'') (demo_world [] []) =
     (Inl (ValueError ''WAN_API_KEY is not set in .env''), demo_world [] [])"
proof -
  have h: "no_api_key (demo_config\<lparr>API_KEY := None\<rparr>)"
    by (simp add: no_api_key_def)
  from missing_credential_fails_before_network [OF h, of "''a cat''" None "demo_world [] []" "JStr ''t-1''"] h
  show ?thesis by simp
qed


section \<open>The polling loop\<close>

text \<open>
  The status that the loop reads off a reply (lines 150 and 151), and the two kinds of
  reply it tells apart: one that keeps it waiting and one that ends it.
\<close>

definition status_of :: "json \<Rightarrow> error + json" where
  "status_of result =
     (case py_get result ''output'' (JObj []) of
        Inl e \<Rightarrow> Inl e
      | Inr output \<Rightarrow> py_get output ''task_status'' (JStr ''UNKNOWN''))"

text \<open>The video location that \<open>run\<close> reads off the final reply (lines 241 and 243).\<close>

definition video_url_of :: "json \<Rightarrow> error + json" where
  "video_url_of final_result =
     (case py_get final_result ''output'' (JObj []) of
        Inl e \<Rightarrow> Inl e
      | Inr output \<Rightarrow> py_get output ''video_url'' JNull)"

definition pending :: "json \<Rightarrow> bool" where
  "pending result =
     (status_of result = Inr (JStr ''PENDING'') \<or> status_of result = Inr (JStr ''RUNNING''))"

definition terminal :: "json \<Rightarrow> bool" where
  "terminal result =
     (case status_of result of
        Inl e \<Rightarrow> False
      | Inr status \<Rightarrow> status \<noteq> JStr ''PENDING'' \<and> status \<noteq> JStr ''RUNNING'')"

text \<open>\<open>answers g n rs\<close>: the requests number \<open>n\<close>, \<open>n + 1\<close>, ... are answered by \<open>rs\<close>, in order.\<close>

fun answers :: "(nat \<Rightarrow> reply) \<Rightarrow> nat \<Rightarrow> json list \<Rightarrow> bool" where
  "answers g n [] = True"
| "answers g n (r # rs) = (reply_json (g n) = Inr r \<and> answers g (Suc n) rs)"

text \<open>What polling leaves alone: the scripts, the platform's limit on a sleep, the POST
  counter and the file system.\<close>

definition frame :: "world \<Rightarrow> world \<Rightarrow> bool" where
  "frame w w' =
     (post_replies w' = post_replies w \<and> get_replies w' = get_replies w \<and>
      clock w' = clock w \<and> sleep_limit w' = sleep_limit w \<and> n_posts w' = n_posts w \<and>
      cwd w' = cwd w \<and> fs w' = fs w)"

text \<open>An interval that \<open>time.sleep\<close> accepts: not negative, within 64 bits as nanoseconds, and
  not beyond what the platform sleeps.\<close>

definition can_sleep :: "world \<Rightarrow> int \<Rightarrow> bool" where
  "can_sleep w interval =
     (0 \<le> interval \<and> interval * 1000000000 \<le> 2 ^ 63 - 1 \<and>
      interval \<le> max 1000000000 (sleep_limit w))"

lemma can_sleep_frame: "frame w w' \<Longrightarrow> can_sleep w' interval = can_sleep w interval"
  by (simp add: frame_def can_sleep_def)

lemma sleep_accepted:
  "can_sleep w interval \<Longrightarrow> sleep interval w = Inr (w\<lparr>trace := trace w @ [Sleep interval]\<rparr>)"
  by (auto simp: can_sleep_def sleep_def)

lemma can_sleep_default: "can_sleep w 10"
  by (simp add: can_sleep_def)

lemma frame_refl: "frame a a"
  by (simp add: frame_def)

lemma frame_trans: "frame a b \<Longrightarrow> frame b c \<Longrightarrow> frame a c"
  by (simp add: frame_def)

lemma frame_say: "frame w (say m w)"
  by (simp add: frame_def say_def)

lemma answers_append:
  "answers g n (xs @ ys) = (answers g n xs \<and> answers g (n + length xs) ys)"
  by (induction xs arbitrary: n) auto


lemma py_get_again:
  "py_get x k d = Inr v \<Longrightarrow> \<exists>v'. py_get x k' d' = Inr v'"
  by (cases x) auto

lemma check_status_reply:
  "\<not> no_api_key conf \<Longrightarrow>
   check_status conf task_id w =
     (reply_json (get_replies w (n_gets w)),
      w\<lparr>n_gets := Suc (n_gets w),
        trace := trace w @
          [Http_get (API_BASE_URL @ ''/tasks/'') task_id [(''Authorization'', bearer conf)]]\<rparr>)"
  by (simp add: check_status_def http_get_def)

lemma poll_tick_pending:
  assumes "\<not> no_api_key conf" "can_sleep w interval"
    "reply_json (get_replies w (n_gets w)) = Inr r" "pending r"
  shows "\<exists>w'. poll_tick conf task_id interval w = (Inr None, w') \<and>
           n_gets w' = Suc (n_gets w) \<and> frame w w'"
proof -
  let ?w1 = "w\<lparr>n_gets := Suc (n_gets w),
        trace := trace w @
          [Http_get (API_BASE_URL @ ''/tasks/'') task_id [(''Authorization'', bearer conf)]]\<rparr>"
  have f: "frame w v \<Longrightarrow> sleep interval v = Inr (v\<lparr>trace := trace v @ [Sleep interval]\<rparr>)" for v
    using assms(2) by (simp add: sleep_accepted can_sleep_frame)
  from assms(4) obtain out s where
    o: "py_get r ''output'' (JObj []) = Inr out" and
    s: "py_get out ''task_status'' (JStr ''UNKNOWN'') = Inr s" and
    t: "s = JStr ''PENDING'' \<or> s = JStr ''RUNNING''"
    by (auto simp: pending_def status_of_def split: sum.splits)
  let ?w3 = "say (Msg_status (strftime_clock (clock ?w1 (n_now ?w1))) s)
               (?w1\<lparr>n_now := Suc (n_now ?w1)\<rparr>)"
  have fr: "frame w ?w3" by (simp add: frame_def say_def)
  from t have "poll_tick conf task_id interval w =
      (case sleep interval ?w3 of Inl e \<Rightarrow> (Inl e, ?w3) | Inr w4 \<Rightarrow> (Inr None, w4))"
    using assms(1,3) o s
    by (auto simp: poll_tick_def check_status_reply now_def Let_def)
  with f [OF fr] show ?thesis
    by (auto simp: frame_def say_def)
qed

lemma poll_tick_terminal:
  assumes "\<not> no_api_key conf"
    "reply_json (get_replies w (n_gets w)) = Inr r" "terminal r"
  shows "\<exists>w'. poll_tick conf task_id interval w = (Inr (Some r), w') \<and>
           n_gets w' = Suc (n_gets w) \<and> frame w w'"
proof -
  from assms(3) obtain out s where
    o: "py_get r ''output'' (JObj []) = Inr out" and
    s: "py_get out ''task_status'' (JStr ''UNKNOWN'') = Inr s" and
    t: "s \<noteq> JStr ''PENDING''" "s \<noteq> JStr ''RUNNING''"
    by (auto simp: terminal_def status_of_def split: sum.splits)
  from py_get_again [OF s] obtain m where
    m: "py_get out ''message'' (JStr unknown_error_text) = Inr m" by blast
  show ?thesis
    using assms(1,2) o s t m
    by (simp add: poll_tick_def check_status_reply now_def say_def frame_def Let_def)
qed

lemma poll_tick_error:
  assumes "\<not> no_api_key conf"
    "reply_json (get_replies w (n_gets w)) = Inl e"
  shows "\<exists>w'. poll_tick conf task_id interval w = (Inl e, w') \<and>
           n_gets w' = Suc (n_gets w) \<and> frame w w'"
  using assms
  by (auto simp: poll_tick_def check_status_reply frame_def)


text \<open>While the replies keep the loop waiting, it moves on by one request per reply.\<close>

lemma wait_loop_pending_prefix:
  assumes "\<not> no_api_key conf"
  shows "can_sleep w interval \<Longrightarrow> answers (get_replies w) (n_gets w) rs \<Longrightarrow>
         list_all pending rs \<Longrightarrow>
         \<exists>w'. wait_loop conf task_id interval w = wait_loop conf task_id interval w' \<and>
              n_gets w' = n_gets w + length rs \<and> frame w w'"
proof (induction rs arbitrary: w)
  case Nil
  show ?case by (auto simp: frame_refl)
next
  case (Cons r rs)
  from Cons.prems have r: "reply_json (get_replies w (n_gets w)) = Inr r" "pending r"
    by simp_all
  from poll_tick_pending [OF assms Cons.prems(1) r] obtain w1 where
    w1: "poll_tick conf task_id interval w = (Inr None, w1)"
      "n_gets w1 = Suc (n_gets w)" "frame w w1" by blast
  have step: "wait_loop conf task_id interval w = wait_loop conf task_id interval w1"
    by (subst wait_loop.simps) (simp add: w1)
  from Cons.prems w1 have "can_sleep w1 interval"
    "answers (get_replies w1) (n_gets w1) rs" "list_all pending rs"
    by (simp_all add: frame_def can_sleep_def)
  from Cons.IH [OF this] obtain w' where
    "wait_loop conf task_id interval w1 = wait_loop conf task_id interval w'"
    "n_gets w' = n_gets w1 + length rs" "frame w1 w'" by blast
  with step w1 show ?case
    by (auto intro: frame_trans)
qed

lemma wait_loop_script:
  assumes "\<not> no_api_key conf" "can_sleep w interval"
    "answers (get_replies w) (n_gets w) (rs @ [r])" "list_all pending rs" "terminal r"
  shows "\<exists>w'. wait_loop conf task_id interval w = Some (Inr r, w') \<and>
              n_gets w' = n_gets w + length rs + 1 \<and> frame w w'"
proof -
  from assms(3) have pre: "answers (get_replies w) (n_gets w) rs"
    and fin: "reply_json (get_replies w (n_gets w + length rs)) = Inr r"
    by (simp_all add: answers_append)
  from wait_loop_pending_prefix [OF assms(1,2) pre assms(4)] obtain w1 where
    w1: "wait_loop conf task_id interval w = wait_loop conf task_id interval w1"
      "n_gets w1 = n_gets w + length rs" "frame w w1" by blast
  from fin w1 have "reply_json (get_replies w1 (n_gets w1)) = Inr r"
    by (simp add: frame_def)
  from poll_tick_terminal [OF assms(1) this assms(5)] obtain w2 where
    w2: "poll_tick conf task_id interval w1 = (Inr (Some r), w2)"
      "n_gets w2 = Suc (n_gets w1)" "frame w1 w2" by blast
  have "wait_loop conf task_id interval w1 = Some (Inr r, w2)"
    by (subst wait_loop.simps) (simp add: w2)
  with w1 w2 show ?thesis
    by (auto intro: frame_trans)
qed

lemma wait_loop_failure:
  assumes "\<not> no_api_key conf" "can_sleep w interval"
    "answers (get_replies w) (n_gets w) rs" "list_all pending rs"
    "reply_json (get_replies w (n_gets w + length rs)) = Inl e"
  shows "\<exists>w'. wait_loop conf task_id interval w = Some (Inl e, w') \<and>
              n_gets w' = n_gets w + length rs + 1 \<and> frame w w'"
proof -
  from wait_loop_pending_prefix [OF assms(1,2,3,4)] obtain w1 where
    w1: "wait_loop conf task_id interval w = wait_loop conf task_id interval w1"
      "n_gets w1 = n_gets w + length rs" "frame w w1" by blast
  from assms(5) w1 have "reply_json (get_replies w1 (n_gets w1)) = Inl e"
    by (simp add: frame_def)
  from poll_tick_error [OF assms(1) this] obtain w2 where
    w2: "poll_tick conf task_id interval w1 = (Inl e, w2)"
      "n_gets w2 = Suc (n_gets w1)" "frame w1 w2" by blast
  have "wait_loop conf task_id interval w1 = Some (Inl e, w2)"
    by (subst wait_loop.simps) (simp add: w2)
  with w1 w2 show ?thesis
    by (auto intro: frame_trans)
qed



lemma wait_for_completion_loop:
  "wait_for_completion conf task_id interval w =
     wait_loop conf task_id interval (say (Msg_interval interval) (say (Msg_task_id task_id) w))"
  by (simp add: wait_for_completion_def)

lemma wait_for_completion_script:
  assumes "\<not> no_api_key conf" "can_sleep w interval" "xs \<noteq> []"
    "answers (get_replies w) (n_gets w) xs" "list_all pending (butlast xs)"
    "terminal (last xs)"
  shows "\<exists>w'. wait_for_completion conf task_id interval w = Some (Inr (last xs), w') \<and>
              n_gets w' = n_gets w + length xs \<and> frame w w'"
proof -
  let ?w0 = "say (Msg_interval interval) (say (Msg_task_id task_id) w)"
  have f0: "frame w ?w0" "n_gets ?w0 = n_gets w"
    by (simp_all add: frame_def say_def)
  from assms(2) f0 have c: "can_sleep ?w0 interval"
    by (simp add: can_sleep_frame)
  from assms(3) have xs: "xs = butlast xs @ [last xs]" by simp
  with assms(4) have "answers (get_replies w) (n_gets w) (butlast xs @ [last xs])" by simp
  with f0 have "answers (get_replies ?w0) (n_gets ?w0) (butlast xs @ [last xs])"
    by (simp add: frame_def)
  from wait_loop_script [OF assms(1) c this assms(5,6)] obtain w' where
    "wait_loop conf task_id interval ?w0 = Some (Inr (last xs), w')"
    "n_gets w' = n_gets ?w0 + length (butlast xs) + 1" "frame ?w0 w'" by blast
  moreover from assms(3) have "length (butlast xs) + 1 = length xs" by simp
  ultimately show ?thesis
    using f0 by (auto simp: wait_for_completion_loop intro: frame_trans)
qed



lemma demo_config_has_key: "\<not> no_api_key demo_config"
  by (simp add: no_api_key_def demo_config_def)

lemma scripted_answers:
  "answers (scripted (map ok_reply rs @ rest)) n (drop n rs)"
proof (induction "length rs - n" arbitrary: n)
  case 0
  then show ?case by simp
next
  case (Suc k)
  then have n: "n < length rs" by simp
  then have d: "drop n rs = rs ! n # drop (Suc n) rs"
    by (simp add: Cons_nth_drop_Suc)
  from Suc have "k = length rs - Suc n" by simp
  from Suc.hyps(1) [OF this] have "answers (scripted (map ok_reply rs @ rest)) (Suc n) (drop (Suc n) rs)" .
  moreover from n have "reply_json (scripted (map ok_reply rs @ rest) n) = Inr (rs ! n)"
    by (simp add: scripted_def nth_append reply_json_def ok_reply_def)
  ultimately show ?case by (simp add: d)
qed

lemma demo_world_answers:
  "answers (get_replies (demo_world posts (map ok_reply rs)))
     (n_gets (demo_world posts (map ok_reply rs))) rs"
  using scripted_answers [of rs "[]" 0] by (simp add: demo_world_def)


section \<open>A transport failure while polling\<close>

text \<open>
  Claim C2, as amended. The source has no handler for exceptions. Let the loop have a
  credential and an interval that \<open>time.sleep\<close> accepts. When a status request fails in
  transport after any number of \<open>PENDING\<close> or \<open>RUNNING\<close> replies, the loop does not return a
  reply at all, so it does not end in \<open>FAILED\<close> or in an unexpected status: the failure
  leaves \<open>wait_for_completion\<close> as an exception, and the failed request was the last one
  made. Nothing is retried.
\<close>

theorem transport_failure_leaves_loop:
  assumes "\<not> no_api_key conf" and "can_sleep w interval"
    and "answers (get_replies w) (n_gets w) rs" and "list_all pending rs"
    and "get_replies w (n_gets w + length rs) = Fault"
  shows "\<exists>w'. wait_for_completion conf task_id interval w = Some (Inl TransportFailure, w') \<and>
              n_gets w' = n_gets w + length rs + 1"
proof -
  let ?w0 = "say (Msg_interval interval) (say (Msg_task_id task_id) w)"
  have f0: "frame w ?w0" "n_gets ?w0 = n_gets w"
    by (simp_all add: frame_def say_def)
  with assms(3) have a: "answers (get_replies ?w0) (n_gets ?w0) rs"
    by (simp add: frame_def)
  from assms(2) f0 have c: "can_sleep ?w0 interval"
    by (simp add: can_sleep_frame)
  from assms(5) f0 have "reply_json (get_replies ?w0 (n_gets ?w0 + length rs)) = Inl TransportFailure"
    by (simp add: frame_def reply_json_def)
  from wait_loop_failure [OF assms(1) c a assms(4) this] f0 show ?thesis
    by (auto simp: wait_for_completion_loop)
qed

theorem transport_failure_leaves_loop_witness:
  "\<not> no_api_key demo_config \<and>
   can_sleep (demo_world [] [ok_reply (status_json ''PENDING'' []), Fault]) 10 \<and>
   answers (get_replies (demo_world [] [ok_reply (status_json ''PENDING'' []), Fault]))
     (n_gets (demo_world [] [ok_reply (status_json ''PENDING'' []), Fault]))
     [status_json ''PENDING'' []] \<and>
   list_all pending [status_json ''PENDING'' []] \<and>
   get_replies (demo_world [] [ok_reply (status_json ''PENDING'' []), Fault])
     (n_gets (demo_world [] [ok_reply (status_json ''PENDING'' []), Fault]) +
      length [status_json ''PENDING'' []]) = Fault \<and>
   (\<exists>w'. wait_for_completion demo_config (JStr ''t-1'') 10
            (demo_world [] [ok_reply (status_json ''PENDING'' []), Fault]) =
          Some (Inl TransportFailure, w') \<and>
        n_gets w' = 2)"
proof -
  let ?w = "demo_world [] [ok_reply (status_json ''PENDING'' []), Fault]"
  have h1: "\<not> no_api_key demo_config" by (rule demo_config_has_key)
  have h2: "can_sleep ?w 10" by (rule can_sleep_default)
  have h3: "answers (get_replies ?w) (n_gets ?w) [status_json ''PENDING'' []]"
    by (simp add: demo_world_def scripted_def reply_json_def ok_reply_def)
  have h4: "list_all pending [status_json ''PENDING'' []]"
    by (simp add: pending_def status_of_def status_json_def)
  have h5: "get_replies ?w (n_gets ?w + length [status_json ''PENDING'' []]) = Fault"
    by (simp add: demo_world_def scripted_def)
  have n: "n_gets ?w + length [status_json ''PENDING'' []] + 1 = 2"
    by (simp add: demo_world_def)
  from transport_failure_leaves_loop [OF h1 h2 h3 h4 h5, of "JStr ''t-1''"] n
  have "\<exists>w'. wait_for_completion demo_config (JStr ''t-1'') 10 ?w =
          Some (Inl TransportFailure, w') \<and> n_gets w' = 2"
    by auto
  with h1 h2 h3 h4 h5 show ?thesis by blast
qed

text \<open>
  Claim C2 as it was stated fails: between a \<open>PENDING\<close> and a \<open>SUCCEEDED\<close> reply, one
  transport failure ends the loop after two requests, and the third reply is never asked
  for.
\<close>

theorem transport_failure_is_not_retried:
  "map_option (\<lambda>(r, w). (r, n_gets w))
     (wait_for_completion demo_config (JStr ''t-1'') 10
        (demo_world []
           [ok_reply (status_json ''PENDING'' []), Fault, ok_reply (status_json ''SUCCEEDED'' [])])) =
     Some (Inl TransportFailure, 2)"
  apply (simp add: wait_for_completion_def)
  apply (subst wait_loop.simps)
  apply (simp add: poll_tick_def world_ops Let_def)
  apply (subst wait_loop.simps)
  apply (simp add: poll_tick_def world_ops Let_def)
  done



section \<open>The orchestrator\<close>

text \<open>The first stage of \<open>run\<close> (lines 212 to 229): the announcement and the submission.\<close>

definition submission ::
  "config \<Rightarrow> string \<Rightarrow> string option \<Rightarrow> world \<Rightarrow> (error + json) \<times> world" where
  "submission conf prompt image_input w =
     generate_video conf prompt image_input (announce conf prompt image_input w)"

text \<open>A reply holds a job identifier when it is an object whose \<open>output\<close> is an object with
  the key \<open>task_id\<close>.\<close>

definition has_task_id :: "json \<Rightarrow> bool" where
  "has_task_id result =
     (case result of
        JObj kvs \<Rightarrow>
          (case map_of kvs ''output'' of
             Some (JObj members) \<Rightarrow> map_of members ''task_id'' \<noteq> None
           | _ \<Rightarrow> False)
      | _ \<Rightarrow> False)"

text \<open>A reply of the expected shape: an object whose \<open>output\<close>, when it has one, is an object.\<close>

definition object_reply :: "json \<Rightarrow> bool" where
  "object_reply result =
     (case result of
        JObj kvs \<Rightarrow>
          (case map_of kvs ''output'' of
             None \<Rightarrow> True
           | Some (JObj members) \<Rightarrow> True
           | Some _ \<Rightarrow> False)
      | _ \<Rightarrow> False)"

lemma run_submission:
  "run conf prompt image_input w =
     (case submission conf prompt image_input w of
        (Inl e, w1) \<Rightarrow> Some (Inl e, w1)
      | (Inr result, w1) \<Rightarrow>
          (case lacks_task_id result of
             Inl e \<Rightarrow> Some (Inl e, w1)
           | Inr missing \<Rightarrow>
               if missing then Some (Inr None, say (Msg_error result) w1)
               else
                 (case task_id_of result of
                    Inl e \<Rightarrow> Some (Inl e, w1)
                  | Inr task_id \<Rightarrow>
                      (case wait_for_completion conf task_id 10 w1 of
                         None \<Rightarrow> None
                       | Some (Inl e, w2) \<Rightarrow> Some (Inl e, w2)
                       | Some (Inr final_result, w2) \<Rightarrow> Some (finish conf final_result w2)))))"
  by (simp add: run_def submission_def)

lemma n_gets_say: "n_gets (say m w) = n_gets w"
  by (simp add: say_def)

lemma n_gets_fold_say: "n_gets (fold say ms w) = n_gets w"
  by (induction ms arbitrary: w) (simp_all add: n_gets_say)

lemma n_gets_announce: "n_gets (announce conf prompt image_input w) = n_gets w"
  unfolding announce_def Let_def by (rule n_gets_fold_say)

lemma n_gets_request_payload:
  "request_payload conf prompt image_input w = (r, w1) \<Longrightarrow> n_gets w1 = n_gets w"
  by (auto simp: request_payload_def Let_def say_def split: if_splits sum.splits)

lemma n_gets_generate_video:
  "generate_video conf prompt image_input w = (r, w1) \<Longrightarrow> n_gets w1 = n_gets w"
  by (auto simp: generate_video_def Let_def http_post_def
      split: if_splits prod.splits sum.splits dest: n_gets_request_payload)

lemma n_gets_submission:
  "submission conf prompt image_input w = (r, w1) \<Longrightarrow> n_gets w1 = n_gets w"
  by (auto simp: submission_def n_gets_announce dest: n_gets_generate_video)

lemma submission_has_key:
  "submission conf prompt image_input w = (Inr result, w1) \<Longrightarrow> \<not> no_api_key conf"
  by (auto simp: submission_def generate_video_def)

lemma has_task_id_proceeds:
  assumes "has_task_id result"
  shows "lacks_task_id result = Inr False \<and> (\<exists>task_id. task_id_of result = Inr task_id)"
proof (cases result)
  case (JObj kvs)
  show ?thesis
  proof (cases "map_of kvs ''output''")
    case None
    with JObj assms show ?thesis by (simp add: has_task_id_def)
  next
    case (Some out)
    with JObj assms show ?thesis
      by (cases out) (auto simp: has_task_id_def lacks_task_id_def task_id_of_def)
  qed
qed (use assms in \<open>simp_all add: has_task_id_def\<close>)

text \<open>Without a job identifier, \<open>run\<close> never reaches the wait: line 231 sends it to the
  \<open>return None\<close>, or one of the lookups of lines 231 and 235 raises.\<close>

lemma no_task_id_stops:
  assumes "\<not> has_task_id result"
  shows "lacks_task_id result = Inr True \<or> (\<exists>e. lacks_task_id result = Inl e) \<or>
         (lacks_task_id result = Inr False \<and> (\<exists>e. task_id_of result = Inl e))"
proof (cases result)
  case (JObj kvs)
  show ?thesis
  proof (cases "map_of kvs ''output''")
    case None
    with JObj show ?thesis by (simp add: lacks_task_id_def)
  next
    case (Some out)
    with JObj assms show ?thesis
      by (cases out) (auto simp: lacks_task_id_def task_id_of_def has_task_id_def)
  qed
qed (auto simp: lacks_task_id_def task_id_of_def)

lemma object_reply_without_task_id:
  assumes "object_reply result" "\<not> has_task_id result"
  shows "lacks_task_id result = Inr True"
  using assms
  by (auto simp: object_reply_def has_task_id_def lacks_task_id_def
      split: json.splits option.splits)

text \<open>
  Let the submission of \<open>run\<close> return a reply without \<open>output.task_id\<close>. Then \<open>run\<close> ends,
  what it returns is never a path, and no status request is ever made: the run ends in the
  world that the submission left, but for the printed error. When the reply has the
  expected shape (an object whose \<open>output\<close>, if present, is an object), the value returned
  is \<open>None\<close>; for other shapes \<open>run\<close> may raise instead.
\<close>

lemma run_without_task_id:
  assumes "submission conf prompt image_input w = (Inr result, w1)"
    and "\<not> has_task_id result"
  shows "\<exists>ret w'. run conf prompt image_input w = Some (ret, w') \<and>
           (\<forall>path. ret \<noteq> Inr (Some path)) \<and>
           (w' = w1 \<or> w' = say (Msg_error result) w1) \<and>
           n_gets w' = n_gets w \<and>
           (object_reply result \<longrightarrow> ret = Inr None)"
proof -
  from n_gets_submission [OF assms(1)] have g: "n_gets w1 = n_gets w" .
  then have g': "n_gets (say (Msg_error result) w1) = n_gets w" by (simp add: say_def)
  from no_task_id_stops [OF assms(2)] consider
      (none) "lacks_task_id result = Inr True"
    | (raised) e where "lacks_task_id result = Inl e"
    | (index) e where "lacks_task_id result = Inr False" "task_id_of result = Inl e"
    by blast
  then show ?thesis
  proof cases
    case none
    then have "run conf prompt image_input w = Some (Inr None, say (Msg_error result) w1)"
      by (simp add: run_submission assms(1))
    with g' show ?thesis by simp
  next
    case raised
    then have r: "run conf prompt image_input w = Some (Inl e, w1)"
      by (simp add: run_submission assms(1))
    have "object_reply result \<longrightarrow> False"
      using raised object_reply_without_task_id [OF _ assms(2)] by auto
    with r g show ?thesis by auto
  next
    case index
    then have r: "run conf prompt image_input w = Some (Inl e, w1)"
      by (simp add: run_submission assms(1))
    have "object_reply result \<longrightarrow> False"
      using index object_reply_without_task_id [OF _ assms(2)] by auto
    with r g show ?thesis by auto
  qed
qed


text \<open>A reply that reports an error and has no \<open>output\<close>.\<close>

definition rejected_json :: json where
  "rejected_json =
     JObj [(''code'', JStr ''InvalidParameter''), (''message'', JStr ''prompt is required'')]"

lemma fst_submission_text_only:
  "fst (submission demo_config prompt None (demo_world [ok_reply j] gets)) = Inr j"
  by (simp add: submission_def generate_video_def request_payload_def image_given_def
      announce_def is_i2v_def Let_def world_ops)


text \<open>
  Claim C4 at the input on which the source departs from it. The guard of line 231 is
  there to return \<open>None\<close> for a reply without a job identifier, and for a reply without
  \<open>output\<close> it does. For the reply \<open>{"output": null}\<close>, which has no job identifier either,
  the test \<open>"task_id" not in None\<close> of the same line raises \<open>TypeError\<close>: \<open>run\<close> does not
  return a failure value, it raises. In both runs no status request is made.
\<close>

theorem null_output_raises_instead_of_returning:
  "\<not> has_task_id (JObj [(''output'', JNull)]) \<and>
   map_option (\<lambda>(r, w). (r, n_gets w))
     (run demo_config ''a cat'' None
        (demo_world [ok_reply (JObj [(''output'', JNull)])] [])) =
     Some (Inl TypeError, 0) \<and>
   \<not> has_task_id rejected_json \<and>
   map_option (\<lambda>(r, w). (r, n_gets w))
     (run demo_config ''a cat'' None (demo_world [ok_reply rejected_json] [])) =
     Some (Inr None, 0)"
  by (simp add: has_task_id_def rejected_json_def run_def generate_video_def
      request_payload_def image_given_def announce_def is_i2v_def lacks_task_id_def
      Let_def world_ops)

section \<open>After the wait\<close>


lemma finish_without_video_url:
  assumes "video_url_of r = Inr v" "\<not> py_truthy v"
  shows "finish conf r w = (Inr None, w)"
proof -
  from assms(1) obtain out where
    o: "py_get r ''output'' (JObj []) = Inr out" and
    v: "py_get out ''video_url'' JNull = Inr v"
    by (auto simp: video_url_of_def split: sum.splits)
  from py_get_again [OF v] obtain s where "py_get out ''task_status'' JNull = Inr s"
    by blast
  with o v assms(2) show ?thesis
    by (simp add: finish_def)
qed

text \<open>The run up to the end of the wait, for a submission that was accepted and a script
  of status replies.\<close>

lemma run_after_script:
  assumes "submission conf prompt image_input w = (Inr result, w1)" "has_task_id result"
    "xs \<noteq> []" "answers (get_replies w1) (n_gets w1) xs"
    "list_all pending (butlast xs)" "terminal (last xs)"
  shows "\<exists>task_id w2. task_id_of result = Inr task_id \<and>
           wait_for_completion conf task_id 10 w1 = Some (Inr (last xs), w2) \<and>
           n_gets w2 = n_gets w1 + length xs \<and> frame w1 w2 \<and>
           run conf prompt image_input w = Some (finish conf (last xs) w2)"
proof -
  from has_task_id_proceeds [OF assms(2)] obtain task_id where
    t: "lacks_task_id result = Inr False" "task_id_of result = Inr task_id" by blast
  have k: "\<not> no_api_key conf" using assms(1) by (rule submission_has_key)
  from wait_for_completion_script [OF k can_sleep_default assms(3,4,5,6), of task_id] obtain w2 where
    w2: "wait_for_completion conf task_id 10 w1 = Some (Inr (last xs), w2)"
      "n_gets w2 = n_gets w1 + length xs" "frame w1 w2" by auto
  have "run conf prompt image_input w = Some (finish conf (last xs) w2)"
    by (simp add: run_submission assms(1) t w2)
  with t w2 show ?thesis by blast
qed




lemma get_replies_fold_say: "get_replies (fold say ms w) = get_replies w"
  by (induction ms arbitrary: w) (simp_all add: say_def)

lemma get_replies_submission:
  "get_replies (snd (submission conf prompt image_input w)) = get_replies w"
proof -
  have a: "get_replies (announce conf prompt image_input w) = get_replies w"
    unfolding announce_def Let_def by (rule get_replies_fold_say)
  have p: "get_replies (snd (request_payload conf prompt image_input v)) = get_replies v" for v
    by (auto simp: request_payload_def Let_def say_def split: if_splits sum.splits)
  have g: "get_replies (snd (generate_video conf prompt image_input v)) = get_replies v" for v
    using p [of v]
    by (auto simp: generate_video_def Let_def http_post_def split: prod.splits sum.splits)
  show ?thesis
    by (simp add: submission_def g a)
qed

lemma submission_accepted_demo:
  "submission demo_config prompt None (demo_world [ok_reply j] (map ok_reply rs)) =
     (Inr j, snd (submission demo_config prompt None (demo_world [ok_reply j] (map ok_reply rs))))"
  using fst_submission_text_only [of prompt j "map ok_reply rs"]
  by (metis prod.collapse)

lemma answers_after_submission_demo:
  "answers
     (get_replies (snd (submission demo_config prompt None (demo_world [ok_reply j] (map ok_reply rs)))))
     (n_gets (snd (submission demo_config prompt None (demo_world [ok_reply j] (map ok_reply rs)))))
     rs"
proof -
  let ?w = "demo_world [ok_reply j] (map ok_reply rs)"
  have "n_gets (snd (submission demo_config prompt None ?w)) = n_gets ?w"
    using n_gets_submission [OF submission_accepted_demo] .
  with demo_world_answers [of "[ok_reply j]" rs] show ?thesis
    by (simp add: get_replies_submission)
qed

lemma has_task_id_accepted: "has_task_id accepted_json"
  by (simp add: has_task_id_def accepted_json_def)


text \<open>
  Claim C5 as it was stated fails in one part: the value that \<open>run\<close> returns carries no
  detail. Whether the job failed with \<open>quota exceeded\<close> or with \<open>invalid image\<close>, \<open>run\<close>
  returns the same \<open>None\<close>.
\<close>

lemmas run_ops =
  run_def generate_video_def request_payload_def image_given_def announce_def is_i2v_def
  lacks_task_id_def task_id_of_def finish_def accepted_json_def wait_for_completion_def



text \<open>
  Claim C10. Let the submission of \<open>run\<close> be accepted and let the wait end with a reply
  whose status is \<open>SUCCEEDED\<close> but which has no video location: the key \<open>video_url\<close> is
  missing from its \<open>output\<close>, or its value is null or empty. Then \<open>run\<close> returns \<open>None\<close> and
  ends in the very world in which the wait ended: no download request was made, no
  directory was created and no file was written.
\<close>

theorem succeeded_without_video_url_returns_none:
  assumes "submission conf prompt image_input w = (Inr result, w1)" and "has_task_id result"
    and "xs \<noteq> []" and "answers (get_replies w1) (n_gets w1) xs"
    and "list_all pending (butlast xs)"
    and "status_of (last xs) = Inr (JStr ''SUCCEEDED'')"
    and "video_url_of (last xs) = Inr v" and "\<not> py_truthy v"
  shows "\<exists>task_id w2. task_id_of result = Inr task_id \<and>
           wait_for_completion conf task_id 10 w1 = Some (Inr (last xs), w2) \<and>
           n_gets w2 = n_gets w1 + length xs \<and>
           fs w2 = fs w1 \<and>
           run conf prompt image_input w = Some (Inr None, w2)"
proof -
  from assms(6) have t: "terminal (last xs)"
    by (simp add: terminal_def)
  from run_after_script [OF assms(1-5) t] obtain task_id w2 where
    r: "task_id_of result = Inr task_id"
      "wait_for_completion conf task_id 10 w1 = Some (Inr (last xs), w2)"
      "n_gets w2 = n_gets w1 + length xs" "frame w1 w2"
      "run conf prompt image_input w = Some (finish conf (last xs) w2)" by blast
  from finish_without_video_url [OF assms(7,8)]
  have "finish conf (last xs) w2 = (Inr None, w2)" .
  with r show ?thesis by (auto simp: frame_def)
qed

definition succeeded_without_url :: "json list" where
  "succeeded_without_url = [status_json ''RUNNING'' [], status_json ''SUCCEEDED'' []]"

theorem succeeded_without_video_url_returns_none_witness:
  "submission demo_config ''a cat'' None
     (demo_world [ok_reply accepted_json] (map ok_reply succeeded_without_url)) =
     (Inr accepted_json,
      snd (submission demo_config ''a cat'' None
        (demo_world [ok_reply accepted_json] (map ok_reply succeeded_without_url)))) \<and>
   has_task_id accepted_json \<and> succeeded_without_url \<noteq> [] \<and>
   answers
     (get_replies (snd (submission demo_config ''a cat'' None
        (demo_world [ok_reply accepted_json] (map ok_reply succeeded_without_url)))))
     (n_gets (snd (submission demo_config ''a cat'' None
        (demo_world [ok_reply accepted_json] (map ok_reply succeeded_without_url)))))
     succeeded_without_url \<and>
   list_all pending (butlast succeeded_without_url) \<and>
   status_of (last succeeded_without_url) = Inr (JStr ''SUCCEEDED'') \<and>
   video_url_of (last succeeded_without_url) = Inr JNull \<and> \<not> py_truthy JNull \<and>
   (\<exists>w2. n_gets w2 = 2 \<and> fs w2 = [[''work''] \<mapsto> Dir] \<and>
        run demo_config ''a cat'' None
          (demo_world [ok_reply accepted_json] (map ok_reply succeeded_without_url)) =
          Some (Inr None, w2))"
proof -
  let ?xs = "succeeded_without_url"
  let ?w = "demo_world [ok_reply accepted_json] (map ok_reply ?xs)"
  let ?w1 = "snd (submission demo_config ''a cat'' None ?w)"
  have h1: "submission demo_config ''a cat'' None ?w = (Inr accepted_json, ?w1)"
    by (rule submission_accepted_demo)
  have h2: "has_task_id accepted_json" by (rule has_task_id_accepted)
  have h3: "?xs \<noteq> []" by (simp add: succeeded_without_url_def)
  have h4: "answers (get_replies ?w1) (n_gets ?w1) ?xs"
    by (rule answers_after_submission_demo)
  have h5: "list_all pending (butlast ?xs)"
    by (simp add: succeeded_without_url_def pending_def status_of_def status_json_def)
  have h6: "status_of (last ?xs) = Inr (JStr ''SUCCEEDED'')"
    by (simp add: succeeded_without_url_def status_of_def status_json_def)
  have h7: "video_url_of (last ?xs) = Inr JNull"
    by (simp add: succeeded_without_url_def video_url_of_def status_json_def)
  have h8: "\<not> py_truthy JNull" by simp
  have n: "n_gets ?w1 + length ?xs = 2"
    using n_gets_submission [OF h1] by (simp add: demo_world_def succeeded_without_url_def)
  have d: "fs ?w1 = [[''work''] \<mapsto> Dir]"
    by (simp add: submission_def generate_video_def request_payload_def image_given_def
        announce_def is_i2v_def Let_def world_ops)
  from succeeded_without_video_url_returns_none [OF h1 h2 h3 h4 h5 h6 h7 h8] n d
  have "\<exists>w2. n_gets w2 = 2 \<and> fs w2 = [[''work''] \<mapsto> Dir] \<and>
          run demo_config ''a cat'' None ?w = Some (Inr None, w2)"
    by auto
  with h1 h2 h3 h4 h5 h6 h7 h8 show ?thesis by blast
qed


section \<open>The request and its prompt\<close>


text \<open>The payload has the image-to-video shape: its \<open>input\<close> has the key \<open>img_url\<close>.\<close>

definition has_img_url :: "json \<Rightarrow> bool" where
  "has_img_url payload =
     (case py_index payload ''input'' of
        Inl e \<Rightarrow> False
      | Inr inp \<Rightarrow> py_in ''img_url'' inp = Inr True)"






section \<open>The choice of the mode\<close>

text \<open>
  The mode is chosen twice, by two tests. \<open>generate_video\<close> builds the image-to-video
  payload when \<open>image_input\<close> is true as a condition (line 64); \<open>run\<close> announces the
  image-to-video mode and model when \<open>image_input\<close> is not \<open>None\<close> (line 212). The payload
  always follows the first test, and the two tests agree on every input but the empty
  string.
\<close>

lemma payload_shape_follows_line_64:
  "request_payload conf prompt image_input w = (Inr payload, w1) \<Longrightarrow>
   has_img_url payload = image_given image_input"
  by (auto simp: request_payload_def has_img_url_def Let_def split: if_splits sum.splits)

lemma presence_tests_agree_but_on_empty:
  "image_input \<noteq> Some [] \<Longrightarrow> is_i2v image_input = image_given image_input"
  by (cases image_input) (simp_all add: is_i2v_def image_given_def)

text \<open>
  Claim C6 at the input on which the source departs from it. Started with the empty string
  as image (\<open>python wan_video.py "" "a cat"\<close>), \<open>run\<close> takes the image reference as set: it
  announces the image-to-video title, model and resolution. \<open>generate_video\<close> takes it as not
  set: it prints the text-to-video mode and posts the text-to-video payload, with the
  text-to-video model and no \<open>img_url\<close>.
\<close>

theorem empty_image_reference_splits_the_mode:
  "is_i2v (Some []) \<and> \<not> image_given (Some []) \<and>
   map_option (\<lambda>(r, w). (r, trace w))
     (main demo_config [''wan_video.py'', [], ''a cat'']
        (demo_world [ok_reply rejected_json] [])) =
     Some (Inr (),
       [Print Msg_rule, Print (Msg_title True), Print Msg_rule,
        Print (Msg_model ''wan2.6-i2v''), Print (Msg_resolution ''720P''),
        Print (Msg_duration 10), Print (Msg_prompt ''a cat''), Print Msg_rule,
        Print Msg_requesting, Print Msg_mode_T2V,
        Http_post ''https://dashscope-intl.aliyuncs.com/api/v1/services/aigc/video-generation/video-synthesis''
          [(''X-DashScope-Async'', ''enable''), (''Authorization'', ''Bearer sk-test''),
           (''Content-Type'', ''application/json'')]
          (JObj
             [(''model'', JStr ''wan2.6-t2v''),
              (''input'', JObj [(''prompt'', JStr ''a cat'')]),
              (''parameters'', JObj
                 [(''size'', JStr ''1280*720''), (''prompt_extend'', JBool True),
                  (''duration'', JNum 10), (''shot_type'', JStr ''single'')])]),
        Print (Msg_error rejected_json)])"
  by (simp add: main_def run_ops py_in.simps rejected_json_def API_BASE_URL_def Let_def
      world_ops)

section \<open>The download\<close>

text \<open>What creating directories may change: every node stays as it is, and where there
  was none there may now be a directory.\<close>

definition only_new_dirs :: "world \<Rightarrow> world \<Rightarrow> bool" where
  "only_new_dirs w w' =
     (\<forall>key. fs w' key = fs w key \<or> (fs w key = None \<and> fs w' key = Some Dir))"

text \<open>What keeps a directory a directory.\<close>

definition keeps_dirs :: "world \<Rightarrow> world \<Rightarrow> bool" where
  "keeps_dirs w w' =
     (cwd w' = cwd w \<and> (\<forall>key. node_at w key = Some Dir \<longrightarrow> node_at w' key = Some Dir))"

lemma only_new_dirs_refl: "only_new_dirs w w"
  by (simp add: only_new_dirs_def)

lemma only_new_dirs_trans:
  "only_new_dirs a b \<Longrightarrow> only_new_dirs b c \<Longrightarrow> only_new_dirs a c"
  unfolding only_new_dirs_def by metis

lemma only_new_dirs_keeps:
  "only_new_dirs w w' \<Longrightarrow> cwd w' = cwd w \<Longrightarrow> keeps_dirs w w'"
  unfolding only_new_dirs_def keeps_dirs_def node_at_def by (metis option.distinct(1))

lemma keeps_dirs_trans: "keeps_dirs a b \<Longrightarrow> keeps_dirs b c \<Longrightarrow> keeps_dirs a c"
  by (simp add: keeps_dirs_def)

lemma walk_from_dir:
  "walk w cur cs = Inr key \<Longrightarrow> node_at w key = Some Dir \<Longrightarrow> node_at w cur = Some Dir"
  by (cases cs) (auto split: option.splits node.splits)

lemma walk_keeps:
  "keeps_dirs w w' \<Longrightarrow> walk w cur cs = Inr key \<Longrightarrow> walk w' cur cs = Inr key"
proof (induction cs arbitrary: cur)
  case Nil
  then show ?case by simp
next
  case (Cons c cs)
  from Cons.prems(2) have d: "node_at w cur = Some Dir"
    by (auto split: option.splits node.splits)
  with Cons.prems(1) have d': "node_at w' cur = Some Dir"
    by (simp add: keeps_dirs_def)
  from Cons.prems(2) d Cons.IH [OF Cons.prems(1)] d' show ?case
    by (auto split: if_splits)
qed

lemma is_dir_keeps:
  assumes "keeps_dirs w w'" "is_dir w p"
  shows "is_dir w' p"
proof -
  from assms(2) obtain key where
    p: "p \<noteq> []" and k: "walk w (start_dir w p) (split_on CHR ''/'' p) = Inr key"
    and d: "node_at w key = Some Dir"
    by (auto simp: is_dir_def stat_def split: if_splits sum.splits option.splits)
  from assms(1) have s: "start_dir w' p = start_dir w p"
    by (simp add: start_dir_def keeps_dirs_def)
  from walk_keeps [OF assms(1) k] have "walk w' (start_dir w' p) (split_on CHR ''/'' p) = Inr key"
    by (simp add: s)
  moreover from assms(1) d have "node_at w' key = Some Dir"
    by (simp add: keeps_dirs_def)
  ultimately show ?thesis
    using p by (simp add: is_dir_def stat_def)
qed

text \<open>One world is the other but for its file system.\<close>

definition fs_only :: "world \<Rightarrow> world \<Rightarrow> bool" where
  "fs_only w w' = (w' = w\<lparr>fs := fs w'\<rparr>)"

lemma fs_only_refl: "fs_only w w"
  by (simp add: fs_only_def)

lemma fs_only_update: "fs_only w (w\<lparr>fs := f\<rparr>)"
  by (simp add: fs_only_def)

lemma fs_only_trans: "fs_only a b \<Longrightarrow> fs_only b c \<Longrightarrow> fs_only a c"
  unfolding fs_only_def
  by (metis world.surjective world.update_convs(9))

lemma fs_only_cwd: "fs_only w w' \<Longrightarrow> cwd w' = cwd w"
  unfolding fs_only_def by (metis world.select_convs(8) world.surjective world.update_convs(9))

lemma new_dirs_keep:
  "fs_only w w' \<Longrightarrow> only_new_dirs w w' \<Longrightarrow> keeps_dirs w w'"
  by (simp add: only_new_dirs_keeps fs_only_cwd)

text \<open>What \<open>make_dirs\<close> does: it changes the file system only, and there it only adds
  directories; when it does not fail, the path then leads to a directory.\<close>

lemma make_dirs_effect:
  "make_dirs w cur cs = (r, w') \<Longrightarrow>
   fs_only w w' \<and> only_new_dirs w w' \<and>
   (r = None \<longrightarrow> (\<exists>key. walk w' cur cs = Inr key \<and> node_at w' key = Some Dir))"
proof (induction w cur cs arbitrary: r w' rule: make_dirs.induct)
  case (1 w cur)
  then show ?case
    by (auto simp: only_new_dirs_refl fs_only_refl split: option.splits node.splits)
next
  case (2 w cur c cs)
  show ?case
  proof (cases "node_at w cur")
    case None
    with "2.prems" show ?thesis by (auto simp: only_new_dirs_refl fs_only_refl)
  next
    case (Some n)
    show ?thesis
    proof (cases n)
      case (File data)
      with Some "2.prems" show ?thesis by (auto simp: only_new_dirs_refl fs_only_refl)
    next
      case Dir
      note here = Some [unfolded Dir]
      consider (stay) "c = [] \<or> c = ''.''"
        | (up) "\<not> (c = [] \<or> c = ''.'')" "c = ''..''"
        | (name) "\<not> (c = [] \<or> c = ''.'')" "c \<noteq> ''..''" by blast
      then show ?thesis
      proof cases
        case stay
        with here "2.prems" have m: "make_dirs w cur cs = (r, w')" by simp
        from "2.IH"(1) [OF Some Dir stay m] have
          e: "fs_only w w'" "only_new_dirs w w'"
            "r = None \<longrightarrow> (\<exists>key. walk w' cur cs = Inr key \<and> node_at w' key = Some Dir)"
          by auto
        from new_dirs_keep [OF e(1,2)] here have "node_at w' cur = Some Dir"
          by (simp add: keeps_dirs_def)
        with e stay show ?thesis by auto
      next
        case up
        with here "2.prems" have m: "make_dirs w (butlast cur) cs = (r, w')" by simp
        from "2.IH"(2) [OF Some Dir up(1) up(2) m] have
          e: "fs_only w w'" "only_new_dirs w w'"
            "r = None \<longrightarrow> (\<exists>key. walk w' (butlast cur) cs = Inr key \<and> node_at w' key = Some Dir)"
          by auto
        from new_dirs_keep [OF e(1,2)] here have "node_at w' cur = Some Dir"
          by (simp add: keeps_dirs_def)
        with e up show ?thesis by auto
      next
        case name
        show ?thesis
        proof (cases "node_at w (cur @ [c])")
          case None
          let ?w1 = "w\<lparr>fs := (fs w)(cur @ [c] \<mapsto> Dir)\<rparr>"
          from None here name "2.prems" have m: "make_dirs ?w1 (cur @ [c]) cs = (r, w')"
            by simp
          from "2.IH"(3) [OF Some Dir name(1) name(2) None m] have
            e: "fs_only ?w1 w'" "only_new_dirs ?w1 w'"
              "r = None \<longrightarrow> (\<exists>key. walk w' (cur @ [c]) cs = Inr key \<and> node_at w' key = Some Dir)"
            by auto
          from None have n1: "only_new_dirs w ?w1"
            by (auto simp: only_new_dirs_def node_at_def)
          have f1: "fs_only w ?w1" by (rule fs_only_update)
          have f: "fs_only w w'" using f1 e(1) by (rule fs_only_trans)
          have n: "only_new_dirs w w'" using n1 e(2) by (rule only_new_dirs_trans)
          from new_dirs_keep [OF f n] here have "node_at w' cur = Some Dir"
            by (simp add: keeps_dirs_def)
          with e f n name show ?thesis by auto
        next
          case (Some m)
          show ?thesis
          proof (cases m)
            case (File data)
            with Some here name "2.prems" show ?thesis
              by (auto simp: only_new_dirs_refl fs_only_refl)
          next
            case Dir
            with Some here name "2.prems" have m: "make_dirs w (cur @ [c]) cs = (r, w')"
              by simp
            from "2.IH"(4) [OF \<open>node_at w cur = Some n\<close> \<open>n = Dir\<close> name(1) name(2) Some Dir m] have
              e: "fs_only w w'" "only_new_dirs w w'"
                "r = None \<longrightarrow> (\<exists>key. walk w' (cur @ [c]) cs = Inr key \<and> node_at w' key = Some Dir)"
              by auto
            from new_dirs_keep [OF e(1,2)] here have "node_at w' cur = Some Dir"
              by (simp add: keeps_dirs_def)
            with e name show ?thesis by auto
          qed
        qed
      qed
    qed
  qed
qed

text \<open>On a path that leads to a directory, \<open>make_dirs\<close> changes nothing.\<close>

lemma make_dirs_existing:
  "walk w cur cs = Inr key \<Longrightarrow> node_at w key = Some Dir \<Longrightarrow> make_dirs w cur cs = (None, w)"
proof (induction cs arbitrary: cur)
  case Nil
  then show ?case by simp
next
  case (Cons c cs)
  from Cons.prems have d: "node_at w cur = Some Dir"
    by (rule walk_from_dir)
  show ?case
  proof (cases "c = [] \<or> c = ''.''")
    case True
    with Cons d show ?thesis by auto
  next
    case False
    show ?thesis
    proof (cases "c = ''..''")
      case True
      with False Cons d show ?thesis by auto
    next
      case name: False
      with False Cons.prems d have k: "walk w (cur @ [c]) cs = Inr key" by simp
      from walk_from_dir [OF k Cons.prems(2)] have "node_at w (cur @ [c]) = Some Dir" .
      with False name d Cons.IH [OF k Cons.prems(2)] show ?thesis by simp
    qed
  qed
qed


lemma make_dirs_errors:
  "make_dirs w cur cs = (Some e, w') \<Longrightarrow>
   e = FileNotFoundError \<or> e = FileExistsError \<or> e = NotADirectoryError"
  by (induction w cur cs rule: make_dirs.induct)
     (auto split: option.splits node.splits if_splits)

text \<open>\<open>os.makedirs(d, exist_ok=True)\<close>: it notes the call, otherwise it changes the file system
  only and only adds directories; when it does not raise, \<open>d\<close> is a directory afterwards;
  and when \<open>d\<close> is a directory already, it does not raise and changes nothing.\<close>

lemma makedirs_effect:
  assumes "makedirs_exist_ok d w = (r, w')"
  shows "fs_only (w\<lparr>trace := trace w @ [Makedirs d]\<rparr>) w' \<and> only_new_dirs w w' \<and>
         (r = None \<longrightarrow> is_dir w' d) \<and>
         (\<forall>e. r = Some e \<longrightarrow> e = FileNotFoundError \<or> e = FileExistsError \<or> e = NotADirectoryError)"
proof (cases "d = []")
  case True
  with assms show ?thesis
    by (auto simp: makedirs_exist_ok_def Let_def fs_only_refl only_new_dirs_def)
next
  case False
  let ?w1 = "w\<lparr>trace := trace w @ [Makedirs d]\<rparr>"
  from False assms have m: "make_dirs ?w1 (start_dir ?w1 d) (split_on CHR ''/'' d) = (r, w')"
    by (simp add: makedirs_exist_ok_def Let_def)
  from make_dirs_effect [OF m] have
    e: "fs_only ?w1 w'" "only_new_dirs ?w1 w'"
      "r = None \<longrightarrow> (\<exists>key. walk w' (start_dir ?w1 d) (split_on CHR ''/'' d) = Inr key \<and>
                          node_at w' key = Some Dir)"
    by auto
  from e(2) have n: "only_new_dirs w w'" by (simp add: only_new_dirs_def)
  from fs_only_cwd [OF e(1)] have "start_dir w' d = start_dir ?w1 d"
    by (simp add: start_dir_def)
  with e(3) False have i: "r = None \<longrightarrow> is_dir w' d"
    by (auto simp: is_dir_def stat_def)
  have k: "\<forall>e. r = Some e \<longrightarrow> e = FileNotFoundError \<or> e = FileExistsError \<or> e = NotADirectoryError"
    using m by (auto dest: make_dirs_errors)
  from e(1) n i k show ?thesis by blast
qed


lemma makedirs_existing:
  assumes "is_dir w d"
  shows "makedirs_exist_ok d w = (None, w\<lparr>trace := trace w @ [Makedirs d]\<rparr>)"
proof -
  let ?w1 = "w\<lparr>trace := trace w @ [Makedirs d]\<rparr>"
  have k: "keeps_dirs w ?w1" by (simp add: keeps_dirs_def node_at_def)
  from is_dir_keeps [OF k assms] obtain key where
    p: "d \<noteq> []" and w: "walk ?w1 (start_dir ?w1 d) (split_on CHR ''/'' d) = Inr key"
    and n: "node_at ?w1 key = Some Dir"
    by (auto simp: is_dir_def stat_def split: if_splits sum.splits option.splits)
  from make_dirs_existing [OF w n] p show ?thesis
    by (simp add: makedirs_exist_ok_def Let_def)
qed


end
